theory Spec2Isabelle
  imports
    Main
    "HOL-Library.AList"
    "HOL-Library.Sublist"
    "HOL-Library.Char_ord"
    "HOL-Library.List_Lexorder"
begin

section \<open>The wiki scraper: strings, exceptions and values\<close>

text \<open>
  This theory embeds \<^verbatim>\<open>wiki-scraper.py\<close> (class \<^verbatim>\<open>BetaScraper\<close>).
  A Python \<^verbatim>\<open>str\<close> is a \<^typ>\<open>string\<close> whose characters are read as the code points
  U+0000 to U+00FF; an exception that leaves a method is the \<open>Inl\<close> of a sum type.
\<close>

datatype error =
    StopIteration
  | IndexError
  | TypeError
  | ValueError
  | KeyError
  | NotADirectoryError
  | FileNotFoundError
  | FileExistsError
  | IsADirectoryError
  | RequestError

datatype pyval = VStr string | VInt int | VBool bool

text \<open>Python's \<^verbatim>\<open>==\<close> on the values a record holds: \<^verbatim>\<open>True == 1\<close> and \<^verbatim>\<open>False == 0\<close>.\<close>

fun py_eq :: "pyval \<Rightarrow> pyval \<Rightarrow> bool" where
  "py_eq (VStr a) (VStr b) = (a = b)"
| "py_eq (VInt a) (VInt b) = (a = b)"
| "py_eq (VBool a) (VBool b) = (a = b)"
| "py_eq (VBool a) (VInt b) = ((if a then 1 else 0) = b)"
| "py_eq (VInt a) (VBool b) = (a = (if b then 1 else 0))"
| "py_eq _ _ = False"

text \<open>\<^verbatim>\<open>xs[i]\<close> for a natural index: out of range raises IndexError.\<close>

definition nth_err :: "'a list \<Rightarrow> nat \<Rightarrow> error + 'a" where
  "nth_err xs i = (if i < length xs then Inr (xs ! i) else Inl IndexError)"

text \<open>\<^verbatim>\<open>xs.index(x)\<close> for an element known to occur: the first position holding it.\<close>

fun first_index :: "'a list \<Rightarrow> 'a \<Rightarrow> nat" where
  "first_index [] x = 0"
| "first_index (y # ys) x = (if y = x then 0 else Suc (first_index ys x))"

subsection \<open>String methods\<close>

text \<open>\<^verbatim>\<open>sub in s\<close>.\<close>

fun contains :: "string \<Rightarrow> string \<Rightarrow> bool" where
  "contains [] sub = (sub = [])"
| "contains (c # cs) sub = (prefix sub (c # cs) \<or> contains cs sub)"

text \<open>\<^verbatim>\<open>s.endswith(suf)\<close>.\<close>

definition endswith :: "string \<Rightarrow> string \<Rightarrow> bool" where
  "endswith s suf = prefix (rev suf) (rev s)"

text \<open>
  \<^verbatim>\<open>s.split(sep)\<close> for a separator that is not empty (every call of the source passes a
  literal): the pieces between the leftmost non-overlapping occurrences of \<open>sep\<close>.
  \<open>acc\<close> holds the current piece, reversed.
\<close>

function split_acc :: "string \<Rightarrow> string \<Rightarrow> string \<Rightarrow> string list" where
  "split_acc sep acc [] = [rev acc]"
| "split_acc sep acc (c # cs) =
     (if sep \<noteq> [] \<and> prefix sep (c # cs)
      then rev acc # split_acc sep [] (drop (length sep) (c # cs))
      else split_acc sep (c # acc) cs)"
  by pat_completeness auto
termination
  by (relation "measure (\<lambda>(sep, acc, s). length s)") (auto simp: neq_Nil_conv)

definition split :: "string \<Rightarrow> string \<Rightarrow> string list" where
  "split s sep = split_acc sep [] s"

text \<open>
  \<^verbatim>\<open>s.replace(old, new)\<close>: every leftmost non-overlapping occurrence of \<open>old\<close> becomes
  \<open>new\<close>; an empty \<open>old\<close> matches before every character and at the end.
\<close>

function replace_ne :: "string \<Rightarrow> string \<Rightarrow> string \<Rightarrow> string" where
  "replace_ne old new [] = []"
| "replace_ne old new (c # cs) =
     (if old \<noteq> [] \<and> prefix old (c # cs)
      then new @ replace_ne old new (drop (length old) (c # cs))
      else c # replace_ne old new cs)"
  by pat_completeness auto
termination
  by (relation "measure (\<lambda>(old, new, s). length s)") (auto simp: neq_Nil_conv)

definition replace :: "string \<Rightarrow> string \<Rightarrow> string \<Rightarrow> string" where
  "replace s old new =
     (if old = [] then new @ concat (map (\<lambda>c. c # new) s) else replace_ne old new s)"

subsection \<open>Digits, \<^verbatim>\<open>str.isnumeric\<close> and \<^verbatim>\<open>int\<close>\<close>

definition is_digit :: "char \<Rightarrow> bool" where
  "is_digit c = (48 \<le> (of_char c :: nat) \<and> (of_char c :: nat) \<le> 57)"

definition digit_val :: "char \<Rightarrow> int" where
  "digit_val c = int (of_char c) - 48"

text \<open>
  The characters below U+0100 with a Unicode numeric value: the ten digits, the
  superscripts one, two and three, and the three vulgar fractions.
\<close>

definition is_numeric_char :: "char \<Rightarrow> bool" where
  "is_numeric_char c =
     (is_digit c \<or> (of_char c :: nat) \<in> {178, 179, 185, 188, 189, 190})"

definition isnumeric :: "string \<Rightarrow> bool" where
  "isnumeric s = (s \<noteq> [] \<and> list_all is_numeric_char s)"

text \<open>The characters below U+0100 that \<^verbatim>\<open>int\<close> strips from both ends.\<close>

definition is_space :: "char \<Rightarrow> bool" where
  "is_space c = ((of_char c :: nat) \<in> {9, 10, 11, 12, 13, 28, 29, 30, 31, 32, 133, 160})"

definition strip :: "string \<Rightarrow> string" where
  "strip s = rev (dropWhile is_space (rev (dropWhile is_space s)))"

text \<open>
  The digits of a decimal literal after the first one, \<open>acc\<close> being the value read so far:
  a single underscore may stand between two digits.
\<close>

fun parse_digits :: "int \<Rightarrow> string \<Rightarrow> int option" where
  "parse_digits acc [] = Some acc"
| "parse_digits acc [c] = (if is_digit c then Some (10 * acc + digit_val c) else None)"
| "parse_digits acc (c # d # ds) =
     (if is_digit c then parse_digits (10 * acc + digit_val c) (d # ds)
      else if c = CHR ''_'' \<and> is_digit d then parse_digits (10 * acc + digit_val d) ds
      else None)"

definition parse_unsigned :: "string \<Rightarrow> int option" where
  "parse_unsigned s =
     (case s of
        [] \<Rightarrow> None
      | d # ds \<Rightarrow> if is_digit d then parse_digits (digit_val d) ds else None)"

text \<open>\<^verbatim>\<open>int(s)\<close>: \<open>None\<close> stands for the ValueError of an invalid literal.\<close>

definition py_int :: "string \<Rightarrow> int option" where
  "py_int s =
     (case strip s of
        [] \<Rightarrow> None
      | c # cs \<Rightarrow>
          if c = CHR ''-'' then map_option uminus (parse_unsigned cs)
          else if c = CHR ''+'' then parse_unsigned cs
          else parse_unsigned (c # cs))"

section \<open>The page filter of \<^verbatim>\<open>build_api\<close>\<close>

text \<open>
  \<^verbatim>\<open>
  if ('.x' not in result['title']) or (not any(x in result['title'] for x in device_types)):
      continue
  major_version = int(result['title'].split('/')[2][:-2])
  if major_version < 9 if 'Apple TV' not in result['title'] else 7:
      continue
  \<close>
  \<open>page_selected\<close> is \<open>Inr True\<close> when control passes both \<^verbatim>\<open>continue\<close>s, \<open>Inr False\<close>
  when one of them is taken. The second test is a conditional expression: Python reads it
  as \<^verbatim>\<open>(major_version < 9) if ('Apple TV' not in title) else 7\<close>, and the integer 7 is
  true.
\<close>

definition major_version :: "string \<Rightarrow> error + int" where
  "major_version title =
     (case nth_err (split title ''/'') 2 of
        Inl e \<Rightarrow> Inl e
      | Inr part \<Rightarrow>
          (case py_int (take (length part - 2) part) of
             None \<Rightarrow> Inl ValueError
           | Some v \<Rightarrow> Inr v))"

definition version_test :: "string \<Rightarrow> int \<Rightarrow> bool" where
  "version_test title v =
     (if \<not> contains title ''Apple TV'' then v < 9 else (7::int) \<noteq> 0)"

definition page_selected :: "string list \<Rightarrow> string \<Rightarrow> error + bool" where
  "page_selected device_types title =
     (if \<not> contains title ''.x'' \<or> \<not> list_ex (\<lambda>x. contains title x) device_types
      then Inr False
      else (case major_version title of
              Inl e \<Rightarrow> Inl e
            | Inr v \<Rightarrow> if version_test title v then Inr False else Inr True))"

text \<open>
  What the source's comment describes
  (\<^verbatim>\<open>All beta firmwares pre-iOS 9/tvOS 7 aren't IPSW beta firmwares\<close>): the minimum is 7
  for a title containing \<^verbatim>\<open>Apple TV\<close> and 9 otherwise.
\<close>

definition documented_minimum :: "string \<Rightarrow> int" where
  "documented_minimum title = (if contains title ''Apple TV'' then 7 else 9)"

section \<open>The parser, the records and the scraper's state\<close>

text \<open>
  \<^verbatim>\<open>wikitextparser\<close> is a library outside the repository, so its results are
  parameters of the model. A wiki-link has its markup (\<^verbatim>\<open>str(link)\<close>) and its
  \<^verbatim>\<open>text\<close>, the part after the pipe, which is \<^verbatim>\<open>None\<close> for a link without
  a pipe (the source writes \<^verbatim>\<open>str(device.text)\<close> for that reason). An external link has
  its \<^verbatim>\<open>url\<close>. \<open>tables\<close> gives \<^verbatim>\<open>table.data()\<close> of every table of a page:
  rows of cells, a cell being a string or \<^verbatim>\<open>None\<close>.
\<close>

record wikilink =
  wl_str :: string
  wl_text :: "string option"

record extlink =
  url :: string

record wtp =
  tables :: "string \<Rightarrow> string option list list list"
  wikilinks :: "string \<Rightarrow> wikilink list"
  external_links :: "string \<Rightarrow> extlink list"

text \<open>\<^verbatim>\<open>site.search('Beta Firmware/')\<close> (the titles, in order) and the text of a page.\<close>

record site =
  search_titles :: "string list"
  page_text :: "string \<Rightarrow> string"

text \<open>
  A firmware record is a Python \<^verbatim>\<open>dict\<close>: its keys in insertion order with their
  values. The dicts live in a store, an address being a position of \<open>heap\<close>, because
  \<^verbatim>\<open>build_api\<close> appends one dict object to the lists of several devices and assigns
  to its keys afterwards. \<open>api\<close> is \<^verbatim>\<open>self.api\<close>: the device keys in insertion
  order, each with the addresses of its list.
\<close>

type_synonym firm = "(string \<times> pyval) list"

record scraper =
  heap :: "firm list"
  api :: "(string \<times> nat list) list"

text \<open>\<^verbatim>\<open>firm[k] = v\<close> on the dict at address \<open>a\<close>.\<close>

definition set_field :: "nat \<Rightarrow> string \<Rightarrow> pyval \<Rightarrow> scraper \<Rightarrow> scraper" where
  "set_field a k v s = s\<lparr>heap := (heap s)[a := AList.update k v (heap s ! a)]\<rparr>"

text \<open>The records of a device as values: what a reader of \<^verbatim>\<open>self.api[device]\<close> sees.\<close>

definition records_of :: "scraper \<Rightarrow> string \<Rightarrow> firm list" where
  "records_of s dev =
     (case map_of (api s) dev of None \<Rightarrow> [] | Some lst \<Rightarrow> map (\<lambda>a. heap s ! a) lst)"

definition buildids_of :: "scraper \<Rightarrow> string \<Rightarrow> pyval option list" where
  "buildids_of s dev = map (\<lambda>f. map_of f ''buildid'') (records_of s dev)"

section \<open>\<^verbatim>\<open>build_api\<close>: the fields of a row\<close>

text \<open>\<^verbatim>\<open>[x for x in table.data()[firm] if x is not None]\<close>.\<close>

fun compact :: "'a option list \<Rightarrow> 'a list" where
  "compact [] = []"
| "compact (None # xs) = compact xs"
| "compact (Some x # xs) = x # compact xs"

text \<open>
  \<^verbatim>\<open>next(template.index(x) for x in template if any(i in x for i in ('Codename', 'Keys')))\<close>:
  \<^verbatim>\<open>i in x\<close> raises TypeError on a \<^verbatim>\<open>None\<close> label, and \<^verbatim>\<open>next\<close> raises
  StopIteration when no label is left.
\<close>

fun template_scan :: "string option list \<Rightarrow> string option list \<Rightarrow> error + nat" where
  "template_scan template [] = Inl StopIteration"
| "template_scan template (None # xs) = Inl TypeError"
| "template_scan template (Some x # xs) =
     (if contains x ''Codename'' \<or> contains x ''Keys''
      then Inr (first_index template (Some x))
      else template_scan template xs)"

definition template_index :: "string option list \<Rightarrow> error + nat" where
  "template_index template = template_scan template template"

text \<open>
  \<^verbatim>\<open>re.compile(r'(iPhone|AppleTV|iPad|iPod)[0-9]+,[0-9]+').match(s)\<close> and its
  \<^verbatim>\<open>group()\<close>. No alternative is a prefix of another and a digit is not a comma, so
  the match, when there is one, is the alternative followed by the longest runs of digits.
\<close>

definition device_prefixes :: "string list" where
  "device_prefixes = [''iPhone'', ''AppleTV'', ''iPad'', ''iPod'']"

definition device_regex_match :: "string \<Rightarrow> string option" where
  "device_regex_match s =
     (case find (\<lambda>p. prefix p s) device_prefixes of
        None \<Rightarrow> None
      | Some p \<Rightarrow>
          (let r1 = drop (length p) s;
               d1 = takeWhile is_digit r1;
               r2 = dropWhile is_digit r1
           in if d1 = [] then None
              else (case r2 of
                      [] \<Rightarrow> None
                    | c # r3 \<Rightarrow>
                        (let d2 = takeWhile is_digit r3
                         in if c = CHR '','' \<and> d2 \<noteq> [] then Some (p @ d1 @ [c] @ d2)
                            else None))))"

text \<open>\<^verbatim>\<open>str(device.text)\<close>.\<close>

definition str_text :: "wikilink \<Rightarrow> string" where
  "str_text wl = (case wl_text wl of None \<Rightarrow> ''None'' | Some t \<Rightarrow> t)"

fun collect_devices :: "wikilink list \<Rightarrow> string list" where
  "collect_devices [] = []"
| "collect_devices (wl # wls) =
     (case device_regex_match (str_text wl) of
        None \<Rightarrow> collect_devices wls
      | Some g \<Rightarrow> g # collect_devices wls)"

definition row_devices :: "wtp \<Rightarrow> string \<Rightarrow> string list" where
  "row_devices P cell = collect_devices (wikilinks P cell)"

text \<open>
  \<^verbatim>\<open>
  version = wtp.parse(firm_data[0])
  if version.wikilinks:
      firm['version'] = firm_data[0].replace(str(version.wikilinks[0]), version.wikilinks[0].text)
  else:
      firm['version'] = firm_data[0]
  \<close>
  \<^verbatim>\<open>str.replace\<close> raises TypeError when its second argument is \<^verbatim>\<open>None\<close>.
\<close>

definition row_version :: "wtp \<Rightarrow> string \<Rightarrow> error + string" where
  "row_version P c0 =
     (case wikilinks P c0 of
        [] \<Rightarrow> Inr c0
      | wl # _ \<Rightarrow>
          (case wl_text wl of
             None \<Rightarrow> Inl TypeError
           | Some t \<Rightarrow> Inr (replace c0 (wl_str wl) t)))"

text \<open>
  \<^verbatim>\<open>
  buildids = firm_data[1].split('   | ')
  if len(buildids) > 1:
      buildids.pop(0)
      buildids.pop(-1)
      for b in range(len(buildids)):
          buildids[b] = buildids[b].split(' = ')[-1][:-1]
  \<close>
\<close>

definition row_buildids :: "string \<Rightarrow> string list" where
  "row_buildids c1 =
     (let parts = split c1 ''   | ''
      in if length parts > 1
         then map (\<lambda>b. butlast (last (split b '' = ''))) (butlast (tl parts))
         else parts)"

text \<open>
  \<^verbatim>\<open>next(wtp.parse(item).external_links for item in firm_data if wtp.parse(item).external_links)\<close>
  inside \<^verbatim>\<open>try\<close>: \<open>None\<close> is the \<^verbatim>\<open>except\<close> branch.
\<close>

definition row_ipsws :: "wtp \<Rightarrow> string list \<Rightarrow> extlink list option" where
  "row_ipsws P firm_data =
     (case find (\<lambda>item. external_links P item \<noteq> []) firm_data of
        None \<Rightarrow> None
      | Some item \<Rightarrow> Some (external_links P item))"

text \<open>
  \<^verbatim>\<open>
  for word in [x.replace(',', '').replace('\n', '') for x in firm_data[-1].split(' ')]:
      if (word.isnumeric()) and (int(word) > 10):
          ipsw_sizes.append(int(word))
  \<close>
\<close>

definition size_words :: "string \<Rightarrow> string list" where
  "size_words cell =
     map (\<lambda>x. replace (replace x '','' '''') [CHR 0x0A] '''') (split cell '' '')"

fun collect_sizes :: "string list \<Rightarrow> error + int list" where
  "collect_sizes [] = Inr []"
| "collect_sizes (w # ws) =
     (if isnumeric w
      then (case py_int w of
              None \<Rightarrow> Inl ValueError
            | Some v \<Rightarrow>
                (case collect_sizes ws of
                   Inl e \<Rightarrow> Inl e
                 | Inr vs \<Rightarrow> Inr (if v > 10 then v # vs else vs)))
      else collect_sizes ws)"

definition row_sizes :: "string \<Rightarrow> error + int list" where
  "row_sizes cell = collect_sizes (size_words cell)"

text \<open>
  The part of the loop body before \<^verbatim>\<open>for d in range(len(devices))\<close>. The new dict
  \<^verbatim>\<open>firm = dict()\<close> takes the next address. \<open>Inr (s, None)\<close> is a \<^verbatim>\<open>continue\<close>;
  \<open>Inr (s, Some f)\<close> reaches the device loop with the fields \<open>f\<close>. The state at a raise
  is not kept.
\<close>

record row_fields =
  rf_addr :: nat
  rf_devices :: "string list"
  rf_buildids :: "string list"
  rf_ipsws :: "extlink list"
  rf_sizes :: "int list"

definition extract_row ::
  "wtp \<Rightarrow> string option list \<Rightarrow> string option list \<Rightarrow> scraper
   \<Rightarrow> error + (scraper \<times> row_fields option)" where
  "extract_row P template row s =
     (let firm_data = compact row
      in case template_index template of
           Inl e \<Rightarrow> Inl e
         | Inr k \<Rightarrow>
       (case nth_err firm_data k of
           Inl e \<Rightarrow> Inl e
         | Inr cell \<Rightarrow>
       (let devices = row_devices P cell;
            a = length (heap s);
            s1 = s\<lparr>heap := heap s @ [[]]\<rparr>
        in case nth_err firm_data 0 of
           Inl e \<Rightarrow> Inl e
         | Inr c0 \<Rightarrow>
       (case row_version P c0 of
           Inl e \<Rightarrow> Inl e
         | Inr v \<Rightarrow>
       (let s2 = set_field a ''version'' (VStr v) s1
        in case nth_err firm_data 1 of
           Inl e \<Rightarrow> Inl e
         | Inr c1 \<Rightarrow>
       (let buildids = row_buildids c1
        in case row_ipsws P firm_data of
           None \<Rightarrow> Inr (s2, None)
         | Some ipsws \<Rightarrow>
             if list_ex (\<lambda>i. endswith (url i) ''.ipsw'') ipsws
             then (case row_sizes (last firm_data) of
                     Inl e \<Rightarrow> Inl e
                   | Inr sizes \<Rightarrow>
                       if length sizes = length ipsws
                       then Inr (s2, Some \<lparr>rf_addr = a, rf_devices = devices,
                                  rf_buildids = buildids, rf_ipsws = ipsws,
                                  rf_sizes = sizes\<rparr>)
                       else Inr (s2, None))
             else Inr (s2, None)))))))"

section \<open>\<^verbatim>\<open>build_api\<close>: the device loop\<close>

text \<open>
  \<^verbatim>\<open>
  firm_index = 0 if ((len(devices) == 4) and (d in (0, 1))) or ((len(devices) == 2 ) and (d == 0)) else 1
  \<close>
\<close>

definition firm_index :: "nat \<Rightarrow> nat \<Rightarrow> nat" where
  "firm_index n d = (if (n = 4 \<and> (d = 0 \<or> d = 1)) \<or> (n = 2 \<and> d = 0) then 0 else 1)"

text \<open>
  The assignments of one iteration, up to the test \<^verbatim>\<open>len(firm.keys()) < 4\<close>:
  \<^verbatim>\<open>
  firm['buildid'] = buildids[0]
  if len(buildids) > 1:
      firm['buildid'] = buildids[firm_index]
  firm['url'] = ipsws[0].url
  firm['size'] = ipsw_sizes[0]
  if len(ipsws) > 1:
      firm['url'] = ipsws[firm_index].url
      firm['size'] = ipsw_sizes[firm_index]
  \<close>
\<close>

definition assign_buildid :: "row_fields \<Rightarrow> nat \<Rightarrow> scraper \<Rightarrow> error + scraper" where
  "assign_buildid f d s =
     (case nth_err (rf_buildids f) 0 of
        Inl e \<Rightarrow> Inl e
      | Inr b0 \<Rightarrow>
          (let s1 = set_field (rf_addr f) ''buildid'' (VStr b0) s
           in if length (rf_buildids f) > 1
              then (case nth_err (rf_buildids f) (firm_index (length (rf_devices f)) d) of
                      Inl e \<Rightarrow> Inl e
                    | Inr b \<Rightarrow> Inr (set_field (rf_addr f) ''buildid'' (VStr b) s1))
              else Inr s1))"

definition assign_url_size :: "row_fields \<Rightarrow> nat \<Rightarrow> nat \<Rightarrow> scraper \<Rightarrow> error + scraper" where
  "assign_url_size f d i s =
     (case nth_err (rf_ipsws f) i of
        Inl e \<Rightarrow> Inl e
      | Inr l \<Rightarrow>
          (let s1 = set_field (rf_addr f) ''url'' (VStr (url l)) s
           in case nth_err (rf_sizes f) i of
                Inl e \<Rightarrow> Inl e
              | Inr z \<Rightarrow> Inr (set_field (rf_addr f) ''size'' (VInt z) s1)))"

definition assign_fields :: "row_fields \<Rightarrow> nat \<Rightarrow> scraper \<Rightarrow> error + scraper" where
  "assign_fields f d s =
     (case assign_buildid f d s of
        Inl e \<Rightarrow> Inl e
      | Inr s1 \<Rightarrow>
          (case assign_url_size f d 0 s1 of
             Inl e \<Rightarrow> Inl e
           | Inr s2 \<Rightarrow>
               if length (rf_ipsws f) > 1
               then assign_url_size f d (firm_index (length (rf_devices f)) d) s2
               else Inr s2))"

text \<open>
  \<^verbatim>\<open>any(f['buildid'] == firm['buildid'] for f in self.api[devices[d]])\<close>, \<open>fm\<close> being
  the dict \<^verbatim>\<open>firm\<close> and \<open>h\<close> the store.
\<close>

fun any_buildid :: "firm list \<Rightarrow> firm \<Rightarrow> nat list \<Rightarrow> error + bool" where
  "any_buildid h fm [] = Inr False"
| "any_buildid h fm (b # bs) =
     (case map_of (h ! b) ''buildid'' of
        None \<Rightarrow> Inl KeyError
      | Some w \<Rightarrow>
          (case map_of fm ''buildid'' of
             None \<Rightarrow> Inl KeyError
           | Some v \<Rightarrow> if py_eq w v then Inr True else any_buildid h fm bs))"

text \<open>
  \<^verbatim>\<open>
  if devices[d] not in self.api.keys():
      self.api[devices[d]] = list()
  if not any(f['buildid'] == firm['buildid'] for f in self.api[devices[d]]):
      self.api[devices[d]].append(firm)
  \<close>
  The list gets the address of \<^verbatim>\<open>firm\<close>, not a copy of the dict.
\<close>

definition append_record :: "nat \<Rightarrow> string \<Rightarrow> scraper \<Rightarrow> error + scraper" where
  "append_record a dev s =
     (let s1 = (if map_of (api s) dev = None
                then s\<lparr>api := AList.update dev [] (api s)\<rparr> else s)
      in case map_of (api s1) dev of
           None \<Rightarrow> Inl KeyError
         | Some lst \<Rightarrow>
             (case any_buildid (heap s1) (heap s1 ! a) lst of
                Inl e \<Rightarrow> Inl e
              | Inr True \<Rightarrow> Inr s1
              | Inr False \<Rightarrow> Inr (s1\<lparr>api := AList.update dev (lst @ [a]) (api s1)\<rparr>)))"

text \<open>
  \<^verbatim>\<open>for d in range(len(devices))\<close>, \<open>ds\<close> being the indices still to come. The test
  \<^verbatim>\<open>if len(firm.keys()) < 4: continue\<close> stands between the assignments and the append.
\<close>

fun device_loop :: "row_fields \<Rightarrow> nat list \<Rightarrow> scraper \<Rightarrow> error + scraper" where
  "device_loop f [] s = Inr s"
| "device_loop f (d # ds) s =
     (case assign_fields f d s of
        Inl e \<Rightarrow> Inl e
      | Inr s1 \<Rightarrow>
          if length (heap s1 ! rf_addr f) < 4 then device_loop f ds s1
          else (case nth_err (rf_devices f) d of
                  Inl e \<Rightarrow> Inl e
                | Inr dev \<Rightarrow>
                    (case append_record (rf_addr f) dev s1 of
                       Inl e \<Rightarrow> Inl e
                     | Inr s2 \<Rightarrow> device_loop f ds s2)))"

text \<open>
  The dicts on which the test \<^verbatim>\<open>len(firm.keys()) < 4\<close> is evaluated while
  \<open>device_loop\<close> runs, in order: an observation of the same run, used to state what holds
  whenever control reaches the test.
\<close>

fun guard_dicts :: "row_fields \<Rightarrow> nat list \<Rightarrow> scraper \<Rightarrow> firm list" where
  "guard_dicts f [] s = []"
| "guard_dicts f (d # ds) s =
     (case assign_fields f d s of
        Inl e \<Rightarrow> []
      | Inr s1 \<Rightarrow>
          (heap s1 ! rf_addr f) #
          (if length (heap s1 ! rf_addr f) < 4 then guard_dicts f ds s1
           else (case nth_err (rf_devices f) d of
                   Inl e \<Rightarrow> []
                 | Inr dev \<Rightarrow>
                     (case append_record (rf_addr f) dev s1 of
                        Inl e \<Rightarrow> []
                      | Inr s2 \<Rightarrow> guard_dicts f ds s2))))"

section \<open>\<^verbatim>\<open>build_api\<close>: rows, tables and pages\<close>

definition process_row ::
  "wtp \<Rightarrow> string option list \<Rightarrow> string option list \<Rightarrow> scraper \<Rightarrow> error + scraper" where
  "process_row P template row s =
     (case extract_row P template row s of
        Inl e \<Rightarrow> Inl e
      | Inr (s1, None) \<Rightarrow> Inr s1
      | Inr (s1, Some f) \<Rightarrow> device_loop f [0..<length (rf_devices f)] s1)"

text \<open>\<^verbatim>\<open>for firm in range(1, len(table.data()))\<close>: an exception of a row ends the loop.\<close>

fun process_rows ::
  "wtp \<Rightarrow> string option list \<Rightarrow> string option list list \<Rightarrow> scraper \<Rightarrow> error + scraper" where
  "process_rows P template [] s = Inr s"
| "process_rows P template (row # rows) s =
     (case process_row P template row s of
        Inl e \<Rightarrow> Inl e
      | Inr s1 \<Rightarrow> process_rows P template rows s1)"

text \<open>\<^verbatim>\<open>template = table.data()[0]\<close> raises IndexError on a table without rows.\<close>

definition process_table :: "wtp \<Rightarrow> string option list list \<Rightarrow> scraper \<Rightarrow> error + scraper" where
  "process_table P data s =
     (case data of
        [] \<Rightarrow> Inl IndexError
      | template # rows \<Rightarrow> process_rows P template rows s)"

fun process_tables ::
  "wtp \<Rightarrow> string option list list list \<Rightarrow> scraper \<Rightarrow> error + scraper" where
  "process_tables P [] s = Inr s"
| "process_tables P (t # ts) s =
     (case process_table P t s of
        Inl e \<Rightarrow> Inl e
      | Inr s1 \<Rightarrow> process_tables P ts s1)"

fun process_pages ::
  "wtp \<Rightarrow> site \<Rightarrow> string list \<Rightarrow> string list \<Rightarrow> scraper \<Rightarrow> error + scraper" where
  "process_pages P w device_types [] s = Inr s"
| "process_pages P w device_types (title # titles) s =
     (case page_selected device_types title of
        Inl e \<Rightarrow> Inl e
      | Inr False \<Rightarrow> process_pages P w device_types titles s
      | Inr True \<Rightarrow>
          (case process_tables P (tables P (page_text w title)) s of
             Inl e \<Rightarrow> Inl e
           | Inr s1 \<Rightarrow> process_pages P w device_types titles s1))"

definition build_api :: "wtp \<Rightarrow> site \<Rightarrow> string list \<Rightarrow> scraper \<Rightarrow> error + scraper" where
  "build_api P w device_types s = process_pages P w device_types (search_titles w) s"

section \<open>\<^verbatim>\<open>get_signing_status\<close>\<close>

text \<open>
  The outside world of \<^verbatim>\<open>get_signing_status\<close>: the board configuration that
  \<^verbatim>\<open>api.ipsw.me\<close> reports for a device (or the exception of the request), the file
  names of the remote archive at a URL (\<open>None\<close> when \<^verbatim>\<open>RemoteZip\<close> fails), whether
  the extraction of a member succeeds, and what \<^verbatim>\<open>tsschecker\<close> prints for a device,
  board and manifest.
\<close>

record signer =
  boardconfig :: "string \<Rightarrow> error + string"
  remote_namelist :: "string \<Rightarrow> string list option"
  remote_extract :: "string \<Rightarrow> string \<Rightarrow> bool"
  tsschecker_stdout :: "string \<Rightarrow> string \<Rightarrow> string \<Rightarrow> string"

text \<open>
  The \<^verbatim>\<open>try\<close> block: \<open>None\<close> when any of its steps raises (the bare
  \<^verbatim>\<open>except\<close> catches all of them), the manifest's name otherwise.
  \<^verbatim>\<open>
  with remotezip.RemoteZip(firm['url']) as ipsw:
      manifest = next(f for f in ipsw.namelist() if 'Manifest' in f)
      ipsw.extract(manifest, tmpdir)
  \<close>
\<close>

definition fetch_manifest :: "signer \<Rightarrow> firm \<Rightarrow> string option" where
  "fetch_manifest E fm =
     (case map_of fm ''url'' of
        Some (VStr u) \<Rightarrow>
          (case remote_namelist E u of
             None \<Rightarrow> None
           | Some names \<Rightarrow>
               (case find (\<lambda>f. contains f ''Manifest'') names of
                  None \<Rightarrow> None
                | Some m \<Rightarrow> if remote_extract E u m then Some m else None))
      | _ \<Rightarrow> None)"

text \<open>Python's \<^verbatim>\<open>==\<close> on two dicts: the same keys with equal values.\<close>

definition dict_eq :: "firm \<Rightarrow> firm \<Rightarrow> bool" where
  "dict_eq a b =
     (length a = length b \<and>
      list_all (\<lambda>(k, v). case map_of b k of None \<Rightarrow> False | Some w \<Rightarrow> py_eq v w) a)"

text \<open>
  \<^verbatim>\<open>self.api[device].index(firm)\<close>: the first position whose dict is \<^verbatim>\<open>firm\<close>
  itself or equal to it.
\<close>

fun index_firm :: "firm list \<Rightarrow> nat list \<Rightarrow> nat \<Rightarrow> nat" where
  "index_firm h [] a = 0"
| "index_firm h (b # bs) a =
     (if b = a \<or> dict_eq (h ! b) (h ! a) then 0 else Suc (index_firm h bs a))"

text \<open>\<^verbatim>\<open>lst.pop(j)\<close>.\<close>

definition pop_at :: "nat \<Rightarrow> 'a list \<Rightarrow> 'a list" where
  "pop_at j lst = take j lst @ drop (Suc j) lst"

text \<open>
  \<^verbatim>\<open>for firm in self.api[device]\<close>: the list iterator keeps a position \<open>i\<close> into the
  list object, reads \<^verbatim>\<open>lst[i]\<close> while \<open>i < len(lst)\<close> and moves on by one, whatever the
  body did to the list.
  \<^verbatim>\<open>
  except:
      self.api[device].pop(self.api[device].index(firm))
      continue
  ...
  firm['signed'] = True if 'IS being signed!' in tsschecker.stdout else False
  \<close>
\<close>

function sign_loop ::
  "signer \<Rightarrow> string \<Rightarrow> string \<Rightarrow> nat \<Rightarrow> nat list \<Rightarrow> firm list \<Rightarrow> nat list \<times> firm list" where
  "sign_loop E device bc i lst h =
     (if i < length lst
      then (case fetch_manifest E (h ! (lst ! i)) of
              None \<Rightarrow>
                sign_loop E device bc (Suc i) (pop_at (index_firm h lst (lst ! i)) lst) h
            | Some m \<Rightarrow>
                sign_loop E device bc (Suc i) lst
                  (h[lst ! i := AList.update ''signed''
                       (VBool (contains (tsschecker_stdout E device bc m) ''IS being signed!''))
                       (h ! (lst ! i))]))
      else (lst, h))"
  by pat_completeness auto
termination
  by (relation "measure (\<lambda>(E, device, bc, i, lst, h). length lst - i)")
     (auto simp: pop_at_def)

definition get_signing_status :: "signer \<Rightarrow> string \<Rightarrow> scraper \<Rightarrow> error + scraper" where
  "get_signing_status E device s =
     (case boardconfig E device of
        Inl e \<Rightarrow> Inl e
      | Inr bc \<Rightarrow>
          (case map_of (api s) device of
             None \<Rightarrow> Inl KeyError
           | Some lst \<Rightarrow>
               (case sign_loop E device bc 0 lst (heap s) of
                  (lst1, h1) \<Rightarrow> Inr \<lparr>heap = h1, api = AList.update device lst1 (api s)\<rparr>)))"

section \<open>\<^verbatim>\<open>write_api\<close>\<close>

text \<open>
  The file system maps a path, the list of its components, to what is there: a directory
  or a file with its contents. A file written by \<^verbatim>\<open>json.dump\<close> holds a list of
  records. A device key is one component of a path: the keys \<^verbatim>\<open>build_api\<close> stores are
  matches of the device pattern, which has no \<^verbatim>\<open>/\<close>.
\<close>

datatype node = Dir | File "firm list"

type_synonym filesystem = "string list \<Rightarrow> node option"

text \<open>\<^verbatim>\<open>shutil.rmtree(path)\<close>: the directory and everything below it.\<close>

definition rmtree :: "string list \<Rightarrow> filesystem \<Rightarrow> error + filesystem" where
  "rmtree p fs =
     (case fs p of
        None \<Rightarrow> Inl FileNotFoundError
      | Some (File c) \<Rightarrow> Inl NotADirectoryError
      | Some Dir \<Rightarrow> Inr (\<lambda>q. if prefix p q then None else fs q))"

text \<open>\<^verbatim>\<open>os.mkdir(path)\<close>.\<close>

definition mkdir :: "string list \<Rightarrow> filesystem \<Rightarrow> error + filesystem" where
  "mkdir p fs =
     (case fs p of
        Some n \<Rightarrow> Inl FileExistsError
      | None \<Rightarrow>
          (case fs (butlast p) of
             None \<Rightarrow> Inl FileNotFoundError
           | Some (File c) \<Rightarrow> Inl NotADirectoryError
           | Some Dir \<Rightarrow> Inr (fs(p \<mapsto> Dir))))"

text \<open>\<^verbatim>\<open>open(p, 'w')\<close> followed by writing \<open>c\<close>: the file is created or replaced.\<close>

definition write_file :: "string list \<Rightarrow> firm list \<Rightarrow> filesystem \<Rightarrow> error + filesystem" where
  "write_file p c fs =
     (case fs p of
        Some Dir \<Rightarrow> Inl IsADirectoryError
      | _ \<Rightarrow>
          (case fs (butlast p) of
             None \<Rightarrow> Inl FileNotFoundError
           | Some (File c') \<Rightarrow> Inl NotADirectoryError
           | Some Dir \<Rightarrow> Inr (fs(p \<mapsto> File c))))"

text \<open>
  \<^verbatim>\<open>sorted(self.api[device], key=lambda firm: firm['buildid'], reverse=True)\<close>. The key
  of a record without \<^verbatim>\<open>buildid\<close> raises KeyError. \<^verbatim>\<open>build_api\<close> stores strings
  only under \<^verbatim>\<open>buildid\<close>; another value is given as TypeError. The sort is stable:
  records with equal keys keep their order.
\<close>

definition buildid_key :: "firm \<Rightarrow> error + string" where
  "buildid_key fm =
     (case map_of fm ''buildid'' of
        None \<Rightarrow> Inl KeyError
      | Some (VStr b) \<Rightarrow> Inr b
      | Some _ \<Rightarrow> Inl TypeError)"

fun with_keys :: "firm list \<Rightarrow> error + (string \<times> firm) list" where
  "with_keys [] = Inr []"
| "with_keys (fm # fms) =
     (case buildid_key fm of
        Inl e \<Rightarrow> Inl e
      | Inr k \<Rightarrow> (case with_keys fms of Inl e \<Rightarrow> Inl e | Inr ks \<Rightarrow> Inr ((k, fm) # ks)))"

fun insert_desc :: "string \<times> firm \<Rightarrow> (string \<times> firm) list \<Rightarrow> (string \<times> firm) list" where
  "insert_desc x [] = [x]"
| "insert_desc x (y # ys) = (if fst x < fst y then y # insert_desc x ys else x # y # ys)"

definition sorted_desc :: "(string \<times> firm) list \<Rightarrow> firm list" where
  "sorted_desc ks = map snd (foldr insert_desc ks [])"

definition dump_records :: "scraper \<Rightarrow> string \<Rightarrow> error + firm list" where
  "dump_records s dev =
     (case with_keys (records_of s dev) of
        Inl e \<Rightarrow> Inl e
      | Inr ks \<Rightarrow> Inr (sorted_desc ks))"

text \<open>
  \<^verbatim>\<open>
  for device in self.api.keys():
      with open(f'{path}/{device}', 'w') as f:
          json.dump(sorted(...), f)
  \<close>
  \<^verbatim>\<open>open\<close> comes first and leaves an empty file; the sorted list is computed next.
\<close>

fun write_devices ::
  "string list \<Rightarrow> scraper \<Rightarrow> string list \<Rightarrow> filesystem \<Rightarrow> error + filesystem" where
  "write_devices path s [] fs = Inr fs"
| "write_devices path s (dev # devs) fs =
     (case write_file (path @ [dev]) [] fs of
        Inl e \<Rightarrow> Inl e
      | Inr fs1 \<Rightarrow>
          (case dump_records s dev of
             Inl e \<Rightarrow> Inl e
           | Inr c \<Rightarrow> write_devices path s devs (fs1(path @ [dev] \<mapsto> File c))))"

text \<open>
  \<^verbatim>\<open>
  if os.path.exists(path):
      shutil.rmtree(path)
  os.mkdir(path)
  \<close>
\<close>

definition write_api :: "string list \<Rightarrow> scraper \<Rightarrow> filesystem \<Rightarrow> error + filesystem" where
  "write_api path s fs =
     (case (if fs path = None then Inr fs else rmtree path fs) of
        Inl e \<Rightarrow> Inl e
      | Inr fs1 \<Rightarrow>
          (case mkdir path fs1 of
             Inl e \<Rightarrow> Inl e
           | Inr fs2 \<Rightarrow> write_devices path s (map fst (api s)) fs2))"

section \<open>Auxiliary notions for the statements\<close>

text \<open>The keys of a complete record, in the order \<^verbatim>\<open>build_api\<close> inserts them.\<close>

definition four_keys :: "string list" where
  "four_keys = [''version'', ''buildid'', ''url'', ''size'']"

text \<open>
  What one word of the size cell contributes, by the test
  \<^verbatim>\<open>(word.isnumeric()) and (int(word) > 10)\<close>.
\<close>

definition kept_size :: "string \<Rightarrow> int option" where
  "kept_size w =
     (if isnumeric w
      then (case py_int w of None \<Rightarrow> None | Some v \<Rightarrow> if v > 10 then Some v else None)
      else None)"

text \<open>
  \<^verbatim>\<open>' '.join(pieces)\<close>: the pieces with one space between neighbours. Every string is
  the join of exactly one non-empty list of pieces without a space.
\<close>

fun join_spaces :: "string list \<Rightarrow> string" where
  "join_spaces [] = []"
| "join_spaces [p] = p"
| "join_spaces (p # q # ps) = p @ CHR '' '' # join_spaces (q # ps)"

text \<open>A piece with its commas and newlines deleted.\<close>

definition delete_commas_newlines :: "string \<Rightarrow> string" where
  "delete_commas_newlines w = filter (\<lambda>c. c \<noteq> CHR '','' \<and> c \<noteq> CHR 0x0A) w"

text \<open>
  The sizes as the specification words them, for comparison with \<open>row_sizes\<close>: the cell is
  tokenized by whitespace (\<^verbatim>\<open>str.split()\<close> without argument: runs of whitespace
  separate, no empty token), commas and newlines are stripped from each token, and the
  tokens that are purely numeric and greater than 10 are kept.
\<close>

fun whitespace_tokens :: "string \<Rightarrow> string \<Rightarrow> string list" where
  "whitespace_tokens acc [] = (if acc = [] then [] else [rev acc])"
| "whitespace_tokens acc (c # cs) =
     (if is_space c
      then (if acc = [] then whitespace_tokens [] cs else rev acc # whitespace_tokens [] cs)
      else whitespace_tokens (c # acc) cs)"

definition spec_sizes :: "string \<Rightarrow> int list" where
  "spec_sizes cell =
     List.map_filter kept_size
       (map (\<lambda>x. replace (replace x '','' '''') [CHR 0x0A] '''') (whitespace_tokens [] cell))"

text \<open>A file system in which every entry lies in a directory.\<close>

definition tree_shaped :: "filesystem \<Rightarrow> bool" where
  "tree_shaped fs = (\<forall>q. fs q \<noteq> None \<longrightarrow> q \<noteq> [] \<longrightarrow> fs (butlast q) = Some Dir)"

section \<open>Sample inputs\<close>

text \<open>
  A firmware table as the wiki has them: the labels, and rows whose build cell lists one
  build per variant, whose keys cell links the devices (piped links, the device
  identifier being the text), whose download cell holds the external links and whose last
  cell holds the sizes. \<open>sample_wtp\<close> gives the parser's results on these cells.
\<close>

definition keys4 :: string where
  "keys4 = ''[[K1|iPhone8,1]] [[K2|iPhone8,2]] [[K3|iPhone8,4]] [[K4|iPhone9,1]]''"

definition keys2 :: string where
  "keys2 = ''[[K1|iPhone8,1]] [[K2|iPhone8,2]]''"

definition links2 :: string where
  "links2 = ''[http://e/a.ipsw a] [http://e/b.ipsw b]''"

definition builds2 :: string where
  "builds2 = ''{{t   | 1 = 14A5261v;   | 2 = 14A5261w;   | }}''"

definition bare_version :: string where
  "bare_version = ''[[iOS 10.1 beta 1]]''"

definition firmware_template :: "string option list" where
  "firmware_template =
     [Some ''Version'', Some ''Build'', Some ''Keys'', Some ''Download URL'', Some ''File Size'']"

definition other_template :: "string option list" where
  "other_template = [Some ''Version'', Some ''Build'', Some ''Release Date'']"

definition row4 :: "string option list" where
  "row4 = [Some ''10.0 beta'', Some builds2, Some keys4, Some links2,
           Some ''2,000,000,000 2,100,000,000'']"

definition row2 :: "string option list" where
  "row2 = [Some ''10.0 beta'', Some builds2, Some keys2, Some links2,
           Some ''2,000,000,000 2,100,000,000'']"

definition row_bare :: "string option list" where
  "row_bare = [Some bare_version, Some builds2, Some keys2, Some links2,
               Some ''2,000,000,000 2,100,000,000'']"

definition row_nolinks :: "string option list" where
  "row_nolinks = [Some ''10.0 beta'', Some builds2, Some keys2, Some ''-'', Some ''-'']"

definition links_ota :: string where
  "links_ota = ''[http://e/a.zip a]''"

definition row_ota :: "string option list" where
  "row_ota = [Some ''10.0 beta'', Some builds2, Some keys2, Some links_ota,
              Some ''2,000,000,000'']"

definition page_title :: string where
  "page_title = ''Beta Firmware/iPhone/10.x''"

definition page_markup :: string where
  "page_markup = ''{| history |}''"

definition sample_wtp :: wtp where
  "sample_wtp =
     \<lparr>tables = (\<lambda>m. if m = page_markup
                     then [[other_template,
                            [Some ''10.0 beta'', Some ''14A5261v'', Some ''13 June 2016'']]]
                     else []),
      wikilinks = (\<lambda>c.
         if c = keys4 then
           [\<lparr>wl_str = ''[[K1|iPhone8,1]]'', wl_text = Some ''iPhone8,1''\<rparr>,
            \<lparr>wl_str = ''[[K2|iPhone8,2]]'', wl_text = Some ''iPhone8,2''\<rparr>,
            \<lparr>wl_str = ''[[K3|iPhone8,4]]'', wl_text = Some ''iPhone8,4''\<rparr>,
            \<lparr>wl_str = ''[[K4|iPhone9,1]]'', wl_text = Some ''iPhone9,1''\<rparr>]
         else if c = keys2 then
           [\<lparr>wl_str = ''[[K1|iPhone8,1]]'', wl_text = Some ''iPhone8,1''\<rparr>,
            \<lparr>wl_str = ''[[K2|iPhone8,2]]'', wl_text = Some ''iPhone8,2''\<rparr>]
         else if c = bare_version then
           [\<lparr>wl_str = ''[[iOS 10.1 beta 1]]'', wl_text = None\<rparr>]
         else []),
      external_links = (\<lambda>c.
         if c = links2 then [\<lparr>url = ''http://e/a.ipsw''\<rparr>, \<lparr>url = ''http://e/b.ipsw''\<rparr>]
         else if c = links_ota then [\<lparr>url = ''http://e/a.zip''\<rparr>]
         else [])\<rparr>"

definition sample_site :: site where
  "sample_site = \<lparr>search_titles = [page_title], page_text = (\<lambda>t. page_markup)\<rparr>"

definition empty_scraper :: scraper where
  "empty_scraper = \<lparr>heap = [], api = []\<rparr>"

text \<open>A size cell with one size per line.\<close>

definition two_line_sizes :: string where
  "two_line_sizes = ''2,000,000,000'' @ [CHR 0x0A] @ ''2,100,000,000''"

text \<open>
  The pieces of a size cell with a footnote mark, a small number and a size broken over
  two lines; and a row whose size cell holds one size and a footnote for two links.
\<close>

definition mixed_pieces :: "string list" where
  "mixed_pieces = [''1,000'', ''[1]'', ''7'', ''2,000'' @ [CHR 0x0A] @ ''3'']"

definition footnote_pieces :: "string list" where
  "footnote_pieces = [''2,000,000,000'', ''[1]'', ''7'']"

definition row_footnote :: "string option list" where
  "row_footnote = [Some ''10.0 beta'', Some builds2, Some keys2, Some links2,
                   Some ''2,000,000,000 [1] 7'']"

text \<open>
  Two records of one device for \<^verbatim>\<open>get_signing_status\<close>; the first download does not
  resolve, the second does and its build is being signed.
\<close>

definition two_records :: scraper where
  "two_records =
     \<lparr>heap = [[(''version'', VStr ''10.0 beta''), (''buildid'', VStr ''14A5261v''),
               (''url'', VStr ''http://e/gone.ipsw''), (''size'', VInt 2000000000)],
              [(''version'', VStr ''10.0 beta 2''), (''buildid'', VStr ''14A5297c''),
               (''url'', VStr ''http://e/b.ipsw''), (''size'', VInt 2100000000)]],
      api = [(''iPhone8,1'', [0, 1])]\<rparr>"

definition sample_signer :: signer where
  "sample_signer =
     \<lparr>boardconfig = (\<lambda>d. Inr ''n71ap''),
      remote_namelist = (\<lambda>u. if u = ''http://e/b.ipsw''
                              then Some [''Restore.plist'', ''BuildManifest.plist'']
                              else None),
      remote_extract = (\<lambda>u m. True),
      tsschecker_stdout = (\<lambda>d b m. ''Build 14A5297c IS being signed!'')\<rparr>"

text \<open>A file system with earlier output under \<^verbatim>\<open>betas\<close> and a file beside it.\<close>

definition old_fs :: filesystem where
  "old_fs =
     (\<lambda>q. if q = [] then Some Dir
          else if q = [''betas''] then Some Dir
          else if q = [''betas'', ''iPad1,1''] then Some (File [])
          else if q = [''README''] then Some (File [])
          else None)"

section \<open>Properties\<close>

lemma template_scan_error:
  "template_scan t xs = Inl e \<Longrightarrow> e = StopIteration \<or> e = TypeError"
  by (induction t xs rule: template_scan.induct) (auto split: if_splits)

lemma nth_err_error: "nth_err xs i = Inl e \<Longrightarrow> e = IndexError"
  by (simp add: nth_err_def split: if_splits)

lemma row_version_error: "row_version P c = Inl e \<Longrightarrow> e = TypeError"
  by (auto simp: row_version_def split: list.splits option.splits)

lemma set_field_api [simp]: "api (set_field a k v s) = api s"
  by (simp add: set_field_def)

lemma extract_row_state:
  assumes "extract_row P template row s = Inr (s1, x)"
  shows "api s1 = api s \<and> (\<exists>v. heap s1 = heap s @ [[(''version'', VStr v)]])"
  using assms
  by (auto simp: extract_row_def Let_def set_field_def
      split: sum.splits option.splits if_splits)

lemma extract_row_fields:
  assumes "extract_row P template row s = Inr (s1, Some f)"
  shows "rf_addr f = length (heap s) \<and> rf_ipsws f \<noteq> [] \<and> length (rf_sizes f) = length (rf_ipsws f)
     \<and> row_ipsws P (compact row) = Some (rf_ipsws f)
     \<and> list_ex (\<lambda>i. endswith (url i) ''.ipsw'') (rf_ipsws f)"
  using assms
  by (auto simp: extract_row_def Let_def set_field_def row_ipsws_def
      split: sum.splits option.splits if_splits dest: find_Some_iff[THEN iffD1])

lemma extract_row_skips:
  assumes "row_ipsws P (compact row) = None \<or>
           (\<exists>ls. row_ipsws P (compact row) = Some ls \<and> \<not> list_ex (\<lambda>i. endswith (url i) ''.ipsw'') ls)"
  shows "case extract_row P template row s of
           Inl e \<Rightarrow> e \<in> {StopIteration, TypeError, IndexError}
         | Inr (s1, x) \<Rightarrow> x = None"
  using assms
  by (auto simp: extract_row_def Let_def
      split: sum.splits option.splits if_splits
      dest: template_scan_error nth_err_error row_version_error simp: template_index_def)


lemma find_Some_in: "find Q xs = Some x \<Longrightarrow> x \<in> set xs \<and> Q x"
  by (induction xs) (auto split: if_splits)

lemma row_ipsws_None: "row_ipsws P fd = None \<longleftrightarrow> (\<forall>item\<in>set fd. external_links P item = [])"
proof (cases "find (\<lambda>item. external_links P item \<noteq> []) fd")
  case None
  have "row_ipsws P fd = None" by (simp add: row_ipsws_def None)
  moreover from None have "\<forall>item\<in>set fd. external_links P item = []"
    by (auto simp: find_None_iff)
  ultimately show ?thesis by simp
next
  case (Some x)
  have "row_ipsws P fd \<noteq> None" by (simp add: row_ipsws_def Some)
  moreover from find_Some_in[OF Some] have "\<not> (\<forall>item\<in>set fd. external_links P item = [])"
    by blast
  ultimately show ?thesis by blast
qed

text \<open>
  C8. A row none of whose compacted cells has external links yields no record, and so does
  a row whose extracted links (those of the first cell that has any) include none ending
  in \<^verbatim>\<open>.ipsw\<close>: processing the row either raises in one of the earlier extraction
  steps or returns with \<^verbatim>\<open>self.api\<close> as it was and every earlier dict untouched.
\<close>

theorem no_download_no_records:
  assumes "(\<forall>item\<in>set (compact row). external_links P item = []) \<or>
           (\<exists>ls. row_ipsws P (compact row) = Some ls \<and> \<not> list_ex (\<lambda>i. endswith (url i) ''.ipsw'') ls)"
  shows "case process_row P template row s of
           Inl e \<Rightarrow> e \<in> {StopIteration, TypeError, IndexError}
         | Inr s1 \<Rightarrow> api s1 = api s \<and> take (length (heap s)) (heap s1) = heap s"
proof -
  from assms have skip: "row_ipsws P (compact row) = None \<or>
           (\<exists>ls. row_ipsws P (compact row) = Some ls \<and> \<not> list_ex (\<lambda>i. endswith (url i) ''.ipsw'') ls)"
    by (simp add: row_ipsws_None)
  show ?thesis
  proof (cases "extract_row P template row s")
    case (Inl e)
    with extract_row_skips[OF skip, of template s] show ?thesis
      by (simp add: process_row_def)
  next
    case (Inr p)
    obtain s1 x where p: "p = (s1, x)" by (cases p)
    from extract_row_skips[OF skip, of template s] Inr p have "x = None" by simp
    moreover from extract_row_state Inr p
    have "api s1 = api s \<and> (\<exists>v. heap s1 = heap s @ [[(''version'', VStr v)]])" by blast
    ultimately show ?thesis using Inr p by (auto simp: process_row_def)
  qed
qed

theorem no_download_no_records_witness:
  "(case process_row sample_wtp firmware_template row_nolinks empty_scraper of
      Inl e \<Rightarrow> e \<in> {StopIteration, TypeError, IndexError}
    | Inr s1 \<Rightarrow> api s1 = api empty_scraper
        \<and> take (length (heap empty_scraper)) (heap s1) = heap empty_scraper)
   \<and> (case process_row sample_wtp firmware_template row_ota empty_scraper of
      Inl e \<Rightarrow> e \<in> {StopIteration, TypeError, IndexError}
    | Inr s1 \<Rightarrow> api s1 = api empty_scraper
        \<and> take (length (heap empty_scraper)) (heap s1) = heap empty_scraper)"
proof -
  have "\<forall>item\<in>set (compact row_nolinks). external_links sample_wtp item = []"
    by code_simp
  then have 1: "(\<forall>item\<in>set (compact row_nolinks). external_links sample_wtp item = []) \<or>
      (\<exists>ls. row_ipsws sample_wtp (compact row_nolinks) = Some ls
         \<and> \<not> list_ex (\<lambda>i. endswith (url i) ''.ipsw'') ls)"
    by blast
  have "row_ipsws sample_wtp (compact row_ota) = Some [\<lparr>url = ''http://e/a.zip''\<rparr>]"
    by code_simp
  moreover have "\<not> list_ex (\<lambda>i. endswith (url i) ''.ipsw'') [\<lparr>url = ''http://e/a.zip''\<rparr>]"
    by code_simp
  ultimately have 2: "(\<forall>item\<in>set (compact row_ota). external_links sample_wtp item = []) \<or>
      (\<exists>ls. row_ipsws sample_wtp (compact row_ota) = Some ls
         \<and> \<not> list_ex (\<lambda>i. endswith (url i) ''.ipsw'') ls)"
    by blast
  from no_download_no_records[OF 1, where template = firmware_template and s = empty_scraper]
    no_download_no_records[OF 2, where template = firmware_template and s = empty_scraper]
  show ?thesis by blast
qed


lemma set_field_heap:
  "a < length (heap s) \<Longrightarrow> heap (set_field a k v s) ! a = AList.update k v (heap s ! a)"
  by (simp add: set_field_def)

lemma set_field_length [simp]: "length (heap (set_field a k v s)) = length (heap s)"
  by (simp add: set_field_def)

lemma assign_buildid_keys:
  assumes "assign_buildid f d s = Inr s1" "rf_addr f < length (heap s)"
    "map fst (heap s ! rf_addr f) = [''version''] \<or> map fst (heap s ! rf_addr f) = four_keys"
  shows "length (heap s1) = length (heap s) \<and> api s1 = api s \<and>
    (map fst (heap s1 ! rf_addr f) = [''version'', ''buildid''] \<or> map fst (heap s1 ! rf_addr f) = four_keys)"
  using assms
  by (auto simp: assign_buildid_def Let_def set_field_heap four_keys_def update_keys
      split: sum.splits if_splits)

lemma assign_url_size_keys:
  assumes "assign_url_size f d i s = Inr s1" "rf_addr f < length (heap s)"
    "map fst (heap s ! rf_addr f) = [''version'', ''buildid''] \<or> map fst (heap s ! rf_addr f) = four_keys"
  shows "length (heap s1) = length (heap s) \<and> api s1 = api s \<and> map fst (heap s1 ! rf_addr f) = four_keys"
  using assms
  by (auto simp: assign_url_size_def Let_def set_field_heap four_keys_def update_keys
      split: sum.splits if_splits)

lemma assign_fields_keys:
  assumes "assign_fields f d s = Inr s1" "rf_addr f < length (heap s)"
    "map fst (heap s ! rf_addr f) = [''version''] \<or> map fst (heap s ! rf_addr f) = four_keys"
  shows "length (heap s1) = length (heap s) \<and> api s1 = api s \<and> map fst (heap s1 ! rf_addr f) = four_keys"
proof -
  from assms(1) obtain s2 s3 where
    1: "assign_buildid f d s = Inr s2" and 2: "assign_url_size f d 0 s2 = Inr s3"
    and 3: "s1 = s3 \<or> assign_url_size f d (firm_index (length (rf_devices f)) d) s3 = Inr s1"
    by (auto simp: assign_fields_def split: sum.splits if_splits)
  from assign_buildid_keys[OF 1 assms(2,3)] have a: "length (heap s2) = length (heap s)" "api s2 = api s"
    "map fst (heap s2 ! rf_addr f) = [''version'', ''buildid''] \<or> map fst (heap s2 ! rf_addr f) = four_keys"
    by auto
  from a assms(2) have l2: "rf_addr f < length (heap s2)" by simp
  from assign_url_size_keys[OF 2 l2 a(3)] have b: "length (heap s3) = length (heap s2)" "api s3 = api s2"
    "map fst (heap s3 ! rf_addr f) = four_keys" by auto
  from 3 show ?thesis
  proof
    assume "s1 = s3" with a b show ?thesis by simp
  next
    assume 4: "assign_url_size f d (firm_index (length (rf_devices f)) d) s3 = Inr s1"
    from b l2 have l3: "rf_addr f < length (heap s3)" by simp
    from assign_url_size_keys[OF 4 l3] b(3) a b show ?thesis by simp
  qed
qed

lemma append_record_heap: "append_record a dev s = Inr s1 \<Longrightarrow> heap s1 = heap s"
  by (auto simp: append_record_def Let_def split: sum.splits option.splits bool.splits if_splits)

lemma guard_dicts_keys:
  assumes "fm \<in> set (guard_dicts f ds s)" "rf_addr f < length (heap s)"
    "map fst (heap s ! rf_addr f) = [''version''] \<or> map fst (heap s ! rf_addr f) = four_keys"
  shows "map fst fm = four_keys"
  using assms
proof (induction ds arbitrary: s)
  case Nil
  then show ?case by simp
next
  case (Cons d ds)
  show ?case
  proof (cases "assign_fields f d s")
    case (Inl e)
    with Cons.prems show ?thesis by simp
  next
    case (Inr s1)
    from assign_fields_keys[OF Inr Cons.prems(2,3)]
    have k: "length (heap s1) = length (heap s)" "map fst (heap s1 ! rf_addr f) = four_keys" by auto
    have "length (map fst (heap s1 ! rf_addr f)) = 4"
      by (simp add: k(2) four_keys_def)
    then have len: "\<not> length (heap s1 ! rf_addr f) < 4" by simp
    from k Cons.prems(2) have l1: "rf_addr f < length (heap s1)" by simp
    show ?thesis
    proof (cases "nth_err (rf_devices f) d")
      case (Inl e)
      with Cons.prems(1) Inr len k show ?thesis by auto
    next
      case dev: (Inr dev)
      show ?thesis
      proof (cases "append_record (rf_addr f) dev s1")
        case (Inl e)
        with Cons.prems(1) Inr len k dev show ?thesis by auto
      next
        case s2: (Inr s2)
        from append_record_heap[OF s2] have h2: "heap s2 = heap s1" .
        from Cons.prems(1) Inr len dev s2
        have "fm = heap s1 ! rf_addr f \<or> fm \<in> set (guard_dicts f ds s2)" by auto
        then show ?thesis
        proof
          assume "fm = heap s1 ! rf_addr f" with k show ?thesis by simp
        next
          assume m: "fm \<in> set (guard_dicts f ds s2)"
          show ?thesis
            by (rule Cons.IH[OF m]) (use h2 l1 k in auto)
        qed
      qed
    qed
  qed
qed


text \<open>
  C9. Whenever control reaches the test \<^verbatim>\<open>len(firm.keys()) < 4\<close>, the dict holds
  exactly the keys \<^verbatim>\<open>version\<close>, \<^verbatim>\<open>buildid\<close>, \<^verbatim>\<open>url\<close> and \<^verbatim>\<open>size\<close>,
  so the test is false and its \<^verbatim>\<open>continue\<close> is never taken: for every row that reaches
  the device loop, every dict on which the test is evaluated has these four keys.
\<close>

theorem completeness_guard_sees_four_keys:
  assumes "extract_row P template row s = Inr (s1, Some f)"
    and "fm \<in> set (guard_dicts f [0..<length (rf_devices f)] s1)"
  shows "map fst fm = [''version'', ''buildid'', ''url'', ''size''] \<and> \<not> length fm < 4"
proof -
  from extract_row_state[OF assms(1)] obtain v where
    h: "heap s1 = heap s @ [[(''version'', VStr v)]]" by blast
  from extract_row_fields[OF assms(1)] have a: "rf_addr f = length (heap s)" by simp
  have 1: "rf_addr f < length (heap s1)" by (simp add: a h)
  have 2: "map fst (heap s1 ! rf_addr f) = [''version'']" by (simp add: a h)
  from guard_dicts_keys[OF assms(2) 1] 2 have k: "map fst fm = four_keys" by simp
  then have "length (map fst fm) = length four_keys" by simp
  then have "length fm = 4" by (simp add: four_keys_def)
  with k show ?thesis by (simp add: four_keys_def)
qed

theorem completeness_guard_sees_four_keys_witness:
  "extract_row sample_wtp firmware_template row4 empty_scraper =
     Inr (\<lparr>heap = [[(''version'', VStr ''10.0 beta'')]], api = []\<rparr>,
          Some \<lparr>rf_addr = 0,
                rf_devices = [''iPhone8,1'', ''iPhone8,2'', ''iPhone8,4'', ''iPhone9,1''],
                rf_buildids = [''14A5261v'', ''14A5261w''],
                rf_ipsws = [\<lparr>url = ''http://e/a.ipsw''\<rparr>, \<lparr>url = ''http://e/b.ipsw''\<rparr>],
                rf_sizes = [2000000000, 2100000000]\<rparr>)
   \<and> map fst [(''version'', VStr ''10.0 beta''), (''buildid'', VStr ''14A5261w''),
              (''url'', VStr ''http://e/b.ipsw''), (''size'', VInt 2100000000)]
       = [''version'', ''buildid'', ''url'', ''size'']
   \<and> \<not> length [(''version'', VStr ''10.0 beta''), (''buildid'', VStr ''14A5261w''),
              (''url'', VStr ''http://e/b.ipsw''), (''size'', VInt 2100000000)] < 4"
proof -
  let ?f = "\<lparr>rf_addr = 0,
                rf_devices = [''iPhone8,1'', ''iPhone8,2'', ''iPhone8,4'', ''iPhone9,1''],
                rf_buildids = [''14A5261v'', ''14A5261w''],
                rf_ipsws = [\<lparr>url = ''http://e/a.ipsw''\<rparr>, \<lparr>url = ''http://e/b.ipsw''\<rparr>],
                rf_sizes = [2000000000, 2100000000]\<rparr>"
  let ?s1 = "\<lparr>heap = [[(''version'', VStr ''10.0 beta'')]], api = []\<rparr>"
  let ?fm = "[(''version'', VStr ''10.0 beta''), (''buildid'', VStr ''14A5261w''),
              (''url'', VStr ''http://e/b.ipsw''), (''size'', VInt 2100000000)]"
  have 1: "extract_row sample_wtp firmware_template row4 empty_scraper = Inr (?s1, Some ?f)"
    by code_simp
  have 2: "?fm \<in> set (guard_dicts ?f [0..<length (rf_devices ?f)] ?s1)"
    by code_simp
  from completeness_guard_sees_four_keys[OF 1 2] 1 show ?thesis by blast
qed


lemma digit_not_space: "is_digit c \<Longrightarrow> \<not> is_space c"
  by (auto simp: is_digit_def is_space_def)

lemma strip_digits: "list_all is_digit w \<Longrightarrow> strip w = w"
proof -
  assume d: "list_all is_digit w"
  have 1: "dropWhile is_space w = w"
    using d by (cases w) (auto simp: digit_not_space)
  have "list_all is_digit (rev w)" using d by (simp add: list_all_iff)
  then have 2: "dropWhile is_space (rev w) = rev w"
    by (cases "rev w") (auto simp: digit_not_space)
  show ?thesis by (simp add: strip_def 1 2)
qed

lemma parse_digits_digits: "list_all is_digit ds \<Longrightarrow> \<exists>v. parse_digits acc ds = Some v"
  by (induction acc ds rule: parse_digits.induct) auto

lemma py_int_digits:
  assumes "w \<noteq> []" "list_all is_digit w"
  shows "\<exists>v. py_int w = Some v"
proof -
  from assms obtain c cs where w: "w = c # cs" by (cases w) auto
  with assms have c: "is_digit c" and cs: "list_all is_digit cs" by auto
  from c have ne: "c \<noteq> CHR ''-''" "c \<noteq> CHR ''+''" by (auto simp: is_digit_def)
  from parse_digits_digits[OF cs] obtain v where "parse_digits (digit_val c) cs = Some v" by blast
  then show ?thesis
    using strip_digits[OF assms(2)] w c ne by (simp add: py_int_def parse_unsigned_def)
qed

lemma collect_sizes_decimal:
  assumes "\<forall>w\<in>set ws. isnumeric w \<longrightarrow> list_all is_digit w"
  shows "collect_sizes ws = Inr (List.map_filter kept_size ws)"
  using assms
proof (induction ws)
  case Nil
  then show ?case by simp
next
  case (Cons w ws)
  then have ih: "collect_sizes ws = Inr (List.map_filter kept_size ws)" by simp
  show ?case
  proof (cases "isnumeric w")
    case False
    then have "kept_size w = None" by (simp add: kept_size_def)
    with False show ?thesis by (simp add: ih)
  next
    case True
    with Cons.prems have "list_all is_digit w" by simp
    moreover from True have "w \<noteq> []" by (simp add: isnumeric_def)
    ultimately obtain v where v: "py_int w = Some v" using py_int_digits by blast
    with True have "kept_size w = (if v > 10 then Some v else None)"
      by (simp add: kept_size_def)
    with True v show ?thesis by (simp add: ih)
  qed
qed

lemma collect_sizes_Inr:
  "collect_sizes ws = Inr zs \<Longrightarrow> zs = List.map_filter kept_size ws"
proof (induction ws arbitrary: zs)
  case Nil
  then show ?case by simp
next
  case (Cons w ws)
  show ?case
  proof (cases "isnumeric w")
    case False
    then have "kept_size w = None" by (simp add: kept_size_def)
    with False Cons show ?thesis by simp
  next
    case True
    with Cons.prems obtain v vs where v: "py_int w = Some v"
      and vs: "collect_sizes ws = Inr vs" and zs: "zs = (if v > 10 then v # vs else vs)"
      by (auto split: option.splits sum.splits)
    from True v have "kept_size w = (if v > 10 then Some v else None)"
      by (simp add: kept_size_def)
    with Cons.IH[OF vs] zs show ?thesis by simp
  qed
qed

lemma collect_sizes_Inl:
  "collect_sizes ws = Inl e \<Longrightarrow> e = ValueError \<and> (\<exists>w\<in>set ws. isnumeric w \<and> py_int w = None)"
  by (induction ws) (auto split: if_splits option.splits sum.splits)

lemma extract_row_mismatch:
  assumes "row_ipsws P (compact row) = Some ls"
    and "row_sizes (last (compact row)) = Inr zs" and "length zs \<noteq> length ls"
  shows "case extract_row P template row s of
           Inl e \<Rightarrow> e \<in> {StopIteration, TypeError, IndexError}
         | Inr (s1, x) \<Rightarrow> x = None"
  using assms
  by (auto simp: extract_row_def Let_def
      split: sum.splits option.splits if_splits
      dest: template_scan_error nth_err_error row_version_error simp: template_index_def)

lemma process_row_skipped:
  assumes "case extract_row P template row s of
           Inl e \<Rightarrow> e \<in> {StopIteration, TypeError, IndexError}
         | Inr (s1, x) \<Rightarrow> x = None"
  shows "case process_row P template row s of
           Inl e \<Rightarrow> e \<in> {StopIteration, TypeError, IndexError}
         | Inr s1 \<Rightarrow> api s1 = api s \<and> take (length (heap s)) (heap s1) = heap s"
proof (cases "extract_row P template row s")
  case (Inl e)
  with assms show ?thesis by (simp add: process_row_def)
next
  case (Inr p)
  obtain s1 x where p: "p = (s1, x)" by (cases p)
  from assms Inr p have "x = None" by simp
  moreover from extract_row_state Inr p
  have "api s1 = api s \<and> (\<exists>v. heap s1 = heap s @ [[(''version'', VStr v)]])" by blast
  ultimately show ?thesis using Inr p by (auto simp: process_row_def)
qed

lemma join_spaces_Cons:
  "ps \<noteq> [] \<Longrightarrow> join_spaces (p # ps) = p @ CHR '' '' # join_spaces ps"
  by (cases ps) auto

lemma split_acc_space_nonempty: "split_acc '' '' acc s \<noteq> []"
  by (induction s arbitrary: acc) auto

lemma join_split_acc: "join_spaces (split_acc '' '' acc s) = rev acc @ s"
proof (induction s arbitrary: acc)
  case Nil
  then show ?case by simp
next
  case (Cons c cs)
  show ?case
  proof (cases "c = CHR '' ''")
    case True
    then have "split_acc '' '' acc (c # cs) = rev acc # split_acc '' '' [] cs" by simp
    then show ?thesis
      using Cons.IH[of "[]"] True by (simp add: join_spaces_Cons split_acc_space_nonempty)
  next
    case False
    then have "split_acc '' '' acc (c # cs) = split_acc '' '' (c # acc) cs" by simp
    then show ?thesis using Cons.IH[of "c # acc"] by simp
  qed
qed

lemma split_acc_space_free:
  "CHR '' '' \<notin> set acc \<Longrightarrow> \<forall>p\<in>set (split_acc '' '' acc s). CHR '' '' \<notin> set p"
proof (induction s arbitrary: acc)
  case Nil
  then show ?case by simp
next
  case (Cons c cs)
  show ?case
  proof (cases "c = CHR '' ''")
    case True
    then have "split_acc '' '' acc (c # cs) = rev acc # split_acc '' '' [] cs" by simp
    then show ?thesis using Cons.IH[of "[]"] Cons.prems by simp
  next
    case False
    then have "split_acc '' '' acc (c # cs) = split_acc '' '' (c # acc) cs" by simp
    then show ?thesis using Cons.IH[of "c # acc"] Cons.prems False by simp
  qed
qed

lemma split_acc_piece:
  "CHR '' '' \<notin> set p \<Longrightarrow> split_acc '' '' acc p = [rev acc @ p]"
  by (induction p arbitrary: acc) auto

lemma split_acc_piece_sep:
  "CHR '' '' \<notin> set p \<Longrightarrow>
   split_acc '' '' acc (p @ CHR '' '' # rest) = (rev acc @ p) # split_acc '' '' [] rest"
  by (induction p arbitrary: acc) auto

lemma split_join_spaces:
  "ps \<noteq> [] \<Longrightarrow> \<forall>p\<in>set ps. CHR '' '' \<notin> set p \<Longrightarrow> split (join_spaces ps) '' '' = ps"
proof (induction ps rule: join_spaces.induct)
  case 1
  then show ?case by simp
next
  case (2 p)
  then show ?case by (simp add: split_def split_acc_piece)
next
  case (3 p q ps)
  then have "split (join_spaces (q # ps)) '' '' = q # ps" by simp
  with 3 show ?case by (simp add: split_def split_acc_piece_sep)
qed

lemma cell_is_joined_pieces:
  "split cell '' '' \<noteq> [] \<and> (\<forall>p\<in>set (split cell '' ''). CHR '' '' \<notin> set p)
   \<and> join_spaces (split cell '' '') = cell"
  using split_acc_space_free[of "[]" cell] join_split_acc[of "[]" cell]
  by (simp add: split_def split_acc_space_nonempty)

lemma replace_char_deletes: "replace x [c] [] = filter (\<lambda>d. d \<noteq> c) x"
  unfolding replace_def by (induction x) auto

lemma size_words_joined:
  assumes "ps \<noteq> []" "\<forall>p\<in>set ps. CHR '' '' \<notin> set p"
  shows "size_words (join_spaces ps) = map delete_commas_newlines ps"
  using split_join_spaces[OF assms]
  by (simp add: size_words_def replace_char_deletes delete_commas_newlines_def conj_commute)

text \<open>
  C7, as amended. The last compacted cell is cut at every single space character, and only
  there: the cell is its pieces joined by one space each, no piece holding a space. Other
  whitespace does not separate, and a newline inside a piece is deleted, joining what it
  stood between. Commas and newlines are deleted from each piece; the sizes are, in order,
  the pieces that are then purely numeric and greater than 10, provided every numeric piece
  consists of decimal digits. Whenever the count of these sizes differs from the count of
  the extracted links, the row yields no record. Every cell is such a join of pieces.
\<close>

theorem sizes_from_space_separated_pieces:
  assumes "pieces \<noteq> []" and "\<forall>p\<in>set pieces. CHR '' '' \<notin> set p"
    and "\<forall>p\<in>set pieces. isnumeric (delete_commas_newlines p)
           \<longrightarrow> list_all is_digit (delete_commas_newlines p)"
  shows "row_sizes (join_spaces pieces)
           = Inr (List.map_filter kept_size (map delete_commas_newlines pieces))
    \<and> (\<forall>P template row s ls.
          last (compact row) = join_spaces pieces \<and> row_ipsws P (compact row) = Some ls
          \<and> length (List.map_filter kept_size (map delete_commas_newlines pieces)) \<noteq> length ls
          \<longrightarrow> (case process_row P template row s of
                 Inl e \<Rightarrow> e \<in> {StopIteration, TypeError, IndexError}
               | Inr s1 \<Rightarrow> api s1 = api s \<and> take (length (heap s)) (heap s1) = heap s))
    \<and> (\<forall>cell. \<exists>ps. ps \<noteq> [] \<and> (\<forall>p\<in>set ps. CHR '' '' \<notin> set p) \<and> join_spaces ps = cell)"
proof -
  have w: "size_words (join_spaces pieces) = map delete_commas_newlines pieces"
    by (rule size_words_joined[OF assms(1,2)])
  have d: "\<forall>w\<in>set (size_words (join_spaces pieces)). isnumeric w \<longrightarrow> list_all is_digit w"
    using assms(3) by (simp add: w)
  have 1: "row_sizes (join_spaces pieces)
      = Inr (List.map_filter kept_size (map delete_commas_newlines pieces))"
    unfolding row_sizes_def using collect_sizes_decimal[OF d] by (simp add: w)
  have 2: "case process_row P template row s of
                 Inl e \<Rightarrow> e \<in> {StopIteration, TypeError, IndexError}
               | Inr s1 \<Rightarrow> api s1 = api s \<and> take (length (heap s)) (heap s1) = heap s"
    if "last (compact row) = join_spaces pieces" "row_ipsws P (compact row) = Some ls"
       "length (List.map_filter kept_size (map delete_commas_newlines pieces)) \<noteq> length ls"
    for P template row s ls
    using that 1 by (intro process_row_skipped extract_row_mismatch) auto
  have 3: "\<exists>ps. ps \<noteq> [] \<and> (\<forall>p\<in>set ps. CHR '' '' \<notin> set p) \<and> join_spaces ps = cell" for cell
    using cell_is_joined_pieces[of cell] by blast
  from 1 2 3 show ?thesis by blast
qed

theorem sizes_from_space_separated_pieces_witness:
  "join_spaces mixed_pieces = ''1,000 [1] 7 2,000'' @ [CHR 0x0A] @ ''3''
   \<and> row_sizes (join_spaces mixed_pieces) = Inr [1000, 20003]
   \<and> (case process_row sample_wtp firmware_template row_footnote empty_scraper of
        Inl e \<Rightarrow> e \<in> {StopIteration, TypeError, IndexError}
      | Inr s1 \<Rightarrow> api s1 = api empty_scraper
          \<and> take (length (heap empty_scraper)) (heap s1) = heap empty_scraper)"
proof -
  let ?ls = "[\<lparr>url = ''http://e/a.ipsw''\<rparr>, \<lparr>url = ''http://e/b.ipsw''\<rparr>]"
  have j: "join_spaces mixed_pieces = ''1,000 [1] 7 2,000'' @ [CHR 0x0A] @ ''3''"
    by code_simp
  have h1: "mixed_pieces \<noteq> []" by code_simp
  have h2: "\<forall>p\<in>set mixed_pieces. CHR '' '' \<notin> set p" by code_simp
  have h3: "\<forall>p\<in>set mixed_pieces. isnumeric (delete_commas_newlines p)
           \<longrightarrow> list_all is_digit (delete_commas_newlines p)"
    by code_simp
  have k: "List.map_filter kept_size (map delete_commas_newlines mixed_pieces) = [1000, 20003]"
    by code_simp
  from sizes_from_space_separated_pieces[OF h1 h2 h3, THEN conjunct1] k
  have 1: "row_sizes (join_spaces mixed_pieces) = Inr [1000, 20003]" by simp
  have g1: "footnote_pieces \<noteq> []" by code_simp
  have g2: "\<forall>p\<in>set footnote_pieces. CHR '' '' \<notin> set p" by code_simp
  have g3: "\<forall>p\<in>set footnote_pieces. isnumeric (delete_commas_newlines p)
           \<longrightarrow> list_all is_digit (delete_commas_newlines p)"
    by code_simp
  have a: "last (compact row_footnote) = join_spaces footnote_pieces" by code_simp
  have b: "row_ipsws sample_wtp (compact row_footnote) = Some ?ls" by code_simp
  have c: "length (List.map_filter kept_size (map delete_commas_newlines footnote_pieces))
      \<noteq> length ?ls"
    by code_simp
  note r = sizes_from_space_separated_pieces[OF g1 g2 g3, THEN conjunct2, THEN conjunct1,
      rule_format, where P = sample_wtp and template = firmware_template
        and row = row_footnote and s = empty_scraper and ls = "?ls"]
  have 2: "case process_row sample_wtp firmware_template row_footnote empty_scraper of
        Inl e \<Rightarrow> e \<in> {StopIteration, TypeError, IndexError}
      | Inr s1 \<Rightarrow> api s1 = api empty_scraper
          \<and> take (length (heap empty_scraper)) (heap s1) = heap empty_scraper"
    by (rule r) (intro conjI a b c)
  from j 1 2 show ?thesis by (intro conjI)
qed

text \<open>
  C7 as stated fails: on a size cell with one size per line, the code finds one word and
  one size, where the tokens separated by whitespace give two.
\<close>

theorem sizes_not_whitespace_separated:
  "row_sizes two_line_sizes = Inr [20000000002100000000]
   \<and> spec_sizes two_line_sizes = [2000000000, 2100000000]
   \<and> row_sizes two_line_sizes \<noteq> Inr (spec_sizes two_line_sizes)"
  by code_simp


lemma template_scan_no_label:
  "list_all (\<lambda>x. case x of None \<Rightarrow> False
       | Some l \<Rightarrow> \<not> contains l ''Codename'' \<and> \<not> contains l ''Keys'') xs
   \<Longrightarrow> template_scan t xs = Inl StopIteration"
  by (induction t xs rule: template_scan.induct) auto

lemma table_without_device_column_raises:
  assumes "list_all (\<lambda>x. case x of None \<Rightarrow> False
        | Some l \<Rightarrow> \<not> contains l ''Codename'' \<and> \<not> contains l ''Keys'') template"
  shows "process_table P (template # row # rows) s = Inl StopIteration"
proof -
  from assms have "template_index template = Inl StopIteration"
    unfolding template_index_def by (rule template_scan_no_label)
  then show ?thesis
    by (simp add: process_table_def process_row_def extract_row_def)
qed

lemma tree_shaped_below:
  assumes "tree_shaped fs" "fs p = None"
  shows "fs (p @ r) = None"
proof (induction r rule: rev_induct)
  case Nil
  then show ?case using assms by simp
next
  case (snoc x xs)
  show ?case
  proof (rule ccontr)
    assume "fs (p @ xs @ [x]) \<noteq> None"
    with assms(1) have "fs (butlast (p @ xs @ [x])) = Some Dir"
      unfolding tree_shaped_def by blast
    then have "fs (p @ xs) = Some Dir" by (simp add: butlast_append)
    with snoc show False by simp
  qed
qed

lemma write_file_Inr:
  "write_file p c fs = Inr fs1 \<Longrightarrow> fs1 = fs(p \<mapsto> File c)"
  by (auto simp: write_file_def split: option.splits node.splits)

lemma write_devices_result:
  assumes "write_devices path s devs fs = Inr fs1"
  shows "(\<forall>dev\<in>set devs. \<exists>c. dump_records s dev = Inr c \<and> fs1 (path @ [dev]) = Some (File c))
       \<and> (\<forall>q. q \<notin> (\<lambda>dev. path @ [dev]) ` set devs \<longrightarrow> fs1 q = fs q)"
  using assms
proof (induction devs arbitrary: fs)
  case Nil
  then show ?case by simp
next
  case (Cons dev devs)
  from Cons.prems obtain fs0 c where
    0: "write_file (path @ [dev]) [] fs = Inr fs0" and c: "dump_records s dev = Inr c"
    and r: "write_devices path s devs (fs0(path @ [dev] \<mapsto> File c)) = Inr fs1"
    by (auto split: sum.splits)
  from write_file_Inr[OF 0] have fs0: "fs0 = fs(path @ [dev] \<mapsto> File [])" .
  from Cons.IH[OF r] have
    ih1: "\<forall>d\<in>set devs. \<exists>c. dump_records s d = Inr c \<and> fs1 (path @ [d]) = Some (File c)"
    and ih2: "\<forall>q. q \<notin> (\<lambda>d. path @ [d]) ` set devs \<longrightarrow> fs1 q = (fs0(path @ [dev] \<mapsto> File c)) q"
    by blast+
  have "\<exists>c. dump_records s dev = Inr c \<and> fs1 (path @ [dev]) = Some (File c)"
  proof (cases "dev \<in> set devs")
    case True
    with ih1 show ?thesis by blast
  next
    case False
    then have "path @ [dev] \<notin> (\<lambda>d. path @ [d]) ` set devs" by auto
    with ih2 have "fs1 (path @ [dev]) = Some (File c)" by simp
    with c show ?thesis by simp
  qed
  moreover have "\<forall>q. q \<notin> (\<lambda>d. path @ [d]) ` set (dev # devs) \<longrightarrow> fs1 q = fs q"
    using ih2 fs0 by auto
  ultimately show ?case using ih1 by simp
qed

text \<open>
  C10. \<^verbatim>\<open>write_api\<close> removes what was at the output path, recreates the directory and
  writes one file per device key: whenever it returns, the path is a directory, every
  device key has its file there holding the device's records sorted by
  \<^verbatim>\<open>buildid\<close>, nothing else is below the path (nothing of the earlier tree is kept),
  and the file system outside the path is as before. The contents below the path depend on
  \<^verbatim>\<open>self.api\<close> alone.
\<close>

theorem write_api_replaces_directory:
  assumes "tree_shaped fs" and "write_api path s fs = Inr fs1"
  shows "fs1 path = Some Dir
     \<and> (\<forall>dev\<in>set (map fst (api s)).
           \<exists>c. dump_records s dev = Inr c \<and> fs1 (path @ [dev]) = Some (File c))
     \<and> (\<forall>q. strict_prefix path q \<and> q \<notin> (\<lambda>dev. path @ [dev]) ` set (map fst (api s))
           \<longrightarrow> fs1 q = None)
     \<and> (\<forall>q. \<not> prefix path q \<longrightarrow> fs1 q = fs q)"
proof -
  from assms(2) obtain fa fb where
    a: "(if fs path = None then Inr fs else rmtree path fs) = Inr fa"
    and b: "mkdir path fa = Inr fb"
    and w: "write_devices path s (map fst (api s)) fb = Inr fs1"
    by (auto simp: write_api_def split: sum.splits)
  have fa_below: "fa q = None" if "prefix path q" for q
  proof (cases "fs path = None")
    case True
    with a have "fa = fs" by simp
    moreover from that obtain r where "q = path @ r" by (auto simp: prefix_def)
    ultimately show ?thesis using tree_shaped_below[OF assms(1) True] by simp
  next
    case False
    with a have "rmtree path fs = Inr fa" by simp
    then have "fa = (\<lambda>q. if prefix path q then None else fs q)"
      by (auto simp: rmtree_def split: option.splits node.splits)
    with that show ?thesis by simp
  qed
  have fa_out: "fa q = fs q" if "\<not> prefix path q" for q
  proof (cases "fs path = None")
    case True
    with a show ?thesis by simp
  next
    case False
    with a have "rmtree path fs = Inr fa" by simp
    then have "fa = (\<lambda>q. if prefix path q then None else fs q)"
      by (auto simp: rmtree_def split: option.splits node.splits)
    with that show ?thesis by simp
  qed
  from b have fb: "fb = fa(path \<mapsto> Dir)"
    by (auto simp: mkdir_def split: option.splits node.splits)
  from write_devices_result[OF w] have
    w1: "\<forall>dev\<in>set (map fst (api s)).
           \<exists>c. dump_records s dev = Inr c \<and> fs1 (path @ [dev]) = Some (File c)"
    and w2: "\<forall>q. q \<notin> (\<lambda>dev. path @ [dev]) ` set (map fst (api s)) \<longrightarrow> fs1 q = fb q"
    by blast+
  have "path \<notin> (\<lambda>dev. path @ [dev]) ` set (map fst (api s))" by auto
  with w2 fb have 1: "fs1 path = Some Dir" by simp
  have 3: "fs1 q = None"
    if "strict_prefix path q \<and> q \<notin> (\<lambda>dev. path @ [dev]) ` set (map fst (api s))" for q
  proof -
    from that w2 have "fs1 q = fb q" by blast
    moreover from that have "q \<noteq> path" "prefix path q" by (auto simp: strict_prefix_def)
    ultimately show ?thesis using fb fa_below by simp
  qed
  have 4: "fs1 q = fs q" if "\<not> prefix path q" for q
  proof -
    from that have "q \<notin> (\<lambda>dev. path @ [dev]) ` set (map fst (api s))" by auto
    with w2 have "fs1 q = fb q" by blast
    moreover from that have "q \<noteq> path" by auto
    ultimately show ?thesis using fb fa_out[OF that] by simp
  qed
  from 1 w1 3 4 show ?thesis by blast
qed

lemma old_fs_tree_shaped: "tree_shaped old_fs"
  unfolding tree_shaped_def old_fs_def by (auto split: if_splits)

theorem write_api_replaces_directory_witness:
  "\<exists>fs1. write_api [''betas''] two_records old_fs = Inr fs1
     \<and> fs1 [''betas''] = Some Dir
     \<and> fs1 [''betas'', ''iPhone8,1'']
         = Some (File [[(''version'', VStr ''10.0 beta 2''), (''buildid'', VStr ''14A5297c''),
                        (''url'', VStr ''http://e/b.ipsw''), (''size'', VInt 2100000000)],
                       [(''version'', VStr ''10.0 beta''), (''buildid'', VStr ''14A5261v''),
                        (''url'', VStr ''http://e/gone.ipsw''), (''size'', VInt 2000000000)]])
     \<and> fs1 [''betas'', ''iPad1,1''] = None
     \<and> fs1 [''README''] = Some (File [])"
proof -
  have "case write_api [''betas''] two_records old_fs of Inl e \<Rightarrow> False | Inr fs1 \<Rightarrow> True"
    by code_simp
  then obtain fs1 where w: "write_api [''betas''] two_records old_fs = Inr fs1"
    by (auto split: sum.splits)
  note r = write_api_replaces_directory[OF old_fs_tree_shaped w]
  have d: "dump_records two_records ''iPhone8,1''
      = Inr [[(''version'', VStr ''10.0 beta 2''), (''buildid'', VStr ''14A5297c''),
              (''url'', VStr ''http://e/b.ipsw''), (''size'', VInt 2100000000)],
             [(''version'', VStr ''10.0 beta''), (''buildid'', VStr ''14A5261v''),
              (''url'', VStr ''http://e/gone.ipsw''), (''size'', VInt 2000000000)]]"
    by code_simp
  have k: "map fst (api two_records) = [''iPhone8,1'']" by code_simp
  from r have 1: "fs1 [''betas''] = Some Dir" by blast
  from r k d have 2: "fs1 ([''betas''] @ [''iPhone8,1''])
         = Some (File [[(''version'', VStr ''10.0 beta 2''), (''buildid'', VStr ''14A5297c''),
                        (''url'', VStr ''http://e/b.ipsw''), (''size'', VInt 2100000000)],
                       [(''version'', VStr ''10.0 beta''), (''buildid'', VStr ''14A5261v''),
                        (''url'', VStr ''http://e/gone.ipsw''), (''size'', VInt 2000000000)]])"
    by auto
  have "strict_prefix [''betas''] [''betas'', ''iPad1,1'']
      \<and> [''betas'', ''iPad1,1''] \<notin> (\<lambda>dev. [''betas''] @ [dev]) ` set (map fst (api two_records))"
    by (simp add: k)
  with r have 3: "fs1 [''betas'', ''iPad1,1''] = None" by blast
  have "\<not> prefix [''betas''] [''README'']" by simp
  with r have "fs1 [''README''] = old_fs [''README'']" by blast
  then have 4: "fs1 [''README''] = Some (File [])" by (simp add: old_fs_def)
  from w 1 2 3 4 show ?thesis by auto
qed

text \<open>
  C1. In a row of four devices with builds \<open>[b0, b1]\<close> the records of the first two
  devices carry \<open>b0\<close> and those of the last two \<open>b1\<close>; in a row of two devices the first
  carries \<open>b0\<close> and the second \<open>b1\<close>. The code departs from this: one dict is appended to
  the list of every device of the row and assigned again in each iteration, so after the
  row every device holds the values of the last one. Here \<^verbatim>\<open>iPhone8,1\<close>, the first
  device of both rows, ends with the second build \<^verbatim>\<open>14A5261w\<close>, its URL and its size.
\<close>

theorem first_device_gets_last_build:
  "row_buildids builds2 = [''14A5261v'', ''14A5261w'']
   \<and> process_row sample_wtp firmware_template row4 empty_scraper =
       Inr \<lparr>heap = [[(''version'', VStr ''10.0 beta''), (''buildid'', VStr ''14A5261w''),
                     (''url'', VStr ''http://e/b.ipsw''), (''size'', VInt 2100000000)]],
            api = [(''iPhone8,1'', [0]), (''iPhone8,2'', [0]), (''iPhone8,4'', [0]),
                   (''iPhone9,1'', [0])]\<rparr>
   \<and> process_row sample_wtp firmware_template row2 empty_scraper =
       Inr \<lparr>heap = [[(''version'', VStr ''10.0 beta''), (''buildid'', VStr ''14A5261w''),
                     (''url'', VStr ''http://e/b.ipsw''), (''size'', VInt 2100000000)]],
            api = [(''iPhone8,1'', [0]), (''iPhone8,2'', [0])]\<rparr>"
  by code_simp

text \<open>
  C2. No two records of a device share a \<^verbatim>\<open>buildid\<close>. The code departs from this: the
  test for an equal \<^verbatim>\<open>buildid\<close> runs when the dict still holds the first variant's
  build, and the dict is assigned afterwards. A row of two devices seen twice leaves the
  first device with two records of the same \<^verbatim>\<open>buildid\<close>.
\<close>

theorem repeated_row_duplicates_buildid:
  "process_rows sample_wtp firmware_template [row2, row2] empty_scraper =
     Inr \<lparr>heap = [[(''version'', VStr ''10.0 beta''), (''buildid'', VStr ''14A5261w''),
                   (''url'', VStr ''http://e/b.ipsw''), (''size'', VInt 2100000000)],
                  [(''version'', VStr ''10.0 beta''), (''buildid'', VStr ''14A5261w''),
                   (''url'', VStr ''http://e/b.ipsw''), (''size'', VInt 2100000000)]],
          api = [(''iPhone8,1'', [0, 1]), (''iPhone8,2'', [0])]\<rparr>
   \<and> buildids_of
        \<lparr>heap = [[(''version'', VStr ''10.0 beta''), (''buildid'', VStr ''14A5261w''),
                   (''url'', VStr ''http://e/b.ipsw''), (''size'', VInt 2100000000)],
                  [(''version'', VStr ''10.0 beta''), (''buildid'', VStr ''14A5261w''),
                   (''url'', VStr ''http://e/b.ipsw''), (''size'', VInt 2100000000)]],
          api = [(''iPhone8,1'', [0, 1]), (''iPhone8,2'', [0])]\<rparr> ''iPhone8,1''
      = [Some (VStr ''14A5261w''), Some (VStr ''14A5261w'')]"
  by code_simp

text \<open>
  C3. \<^verbatim>\<open>build_api\<close> never raises on malformed tables: a malformed row yields no record
  and processing goes on with the next row. The code departs from this. It skips a row
  without links, without an \<^verbatim>\<open>.ipsw\<close> link or with a size count unlike the link
  count, but \<^verbatim>\<open>next(...)\<close> and the indexing of the compacted row stand outside its
  \<^verbatim>\<open>try\<close>: a table without a label containing \<^verbatim>\<open>Codename\<close> or \<^verbatim>\<open>Keys\<close>
  raises StopIteration, a row too short for the located column raises IndexError, a version
  cell with a link without display text raises TypeError, and the rows that follow are
  not processed.
\<close>

theorem malformed_table_raises:
  "build_api sample_wtp sample_site [''iPhone''] empty_scraper = Inl StopIteration
   \<and> process_table sample_wtp [firmware_template, [Some ''10.0 beta'', Some builds2], row4]
        empty_scraper = Inl IndexError
   \<and> process_table sample_wtp [firmware_template, row_bare, row4] empty_scraper
       = Inl TypeError"
  by code_simp

text \<open>
  C5. The version is the first cell with the markup of its first wiki-link replaced by the
  link's display text; the bare link \<^verbatim>\<open>[[iOS 10.1 beta 1]]\<close> becomes
  \<^verbatim>\<open>iOS 10.1 beta 1\<close>. The code departs from this: a link without a pipe has the text
  \<^verbatim>\<open>None\<close>, \<^verbatim>\<open>str.replace\<close> raises TypeError on it, and the row raises instead of
  yielding a version.
\<close>

theorem bare_link_version_raises:
  "row_version sample_wtp bare_version = Inl TypeError
   \<and> process_row sample_wtp firmware_template row_bare empty_scraper = Inl TypeError"
  by code_simp

text \<open>
  C6. After \<^verbatim>\<open>get_signing_status\<close> every record left in the device's list has a
  \<^verbatim>\<open>signed\<close> field, and the removed records are those whose download did not resolve.
  The code departs from this: removing a record while the loop runs over the list makes
  the loop pass over the record that follows. Of two records whose first does not resolve,
  the second stays in the list, its download resolving, without a \<^verbatim>\<open>signed\<close> field.
\<close>

theorem record_after_removed_one_unsigned:
  "fetch_manifest sample_signer (heap two_records ! 0) = None
   \<and> fetch_manifest sample_signer (heap two_records ! 1) = Some ''BuildManifest.plist''
   \<and> get_signing_status sample_signer ''iPhone8,1'' two_records =
       Inr \<lparr>heap = heap two_records, api = [(''iPhone8,1'', [1])]\<rparr>
   \<and> map (\<lambda>f. map_of f ''signed'')
        (records_of \<lparr>heap = heap two_records, api = [(''iPhone8,1'', [1])]\<rparr> ''iPhone8,1'')
      = [None]"
  by code_simp

text \<open>
  C4. A page is processed if and only if its title contains \<^verbatim>\<open>.x\<close> and a requested
  family, and its major version is at least the family minimum (7 for Apple TV). The code
  departs from this: the page \<^verbatim>\<open>Beta Firmware/Apple TV/9.x\<close>, requested, of major
  version 9 and so above the documented minimum 7, is skipped.
\<close>

theorem apple_tv_page_skipped:
  "contains ''Beta Firmware/Apple TV/9.x'' ''.x''
   \<and> list_ex (\<lambda>x. contains ''Beta Firmware/Apple TV/9.x'' x) [''Apple TV'']
   \<and> major_version ''Beta Firmware/Apple TV/9.x'' = Inr 9
   \<and> documented_minimum ''Beta Firmware/Apple TV/9.x'' \<le> 9
   \<and> page_selected [''Apple TV''] ''Beta Firmware/Apple TV/9.x'' = Inr False"
  by (simp add: page_selected_def major_version_def version_test_def documented_minimum_def
      nth_err_def split_def py_int_def strip_def is_space_def parse_unsigned_def
      is_digit_def digit_val_def)

theorem apple_tv_page_skipped_witness:
  "page_selected [''Apple TV''] ''Beta Firmware/Apple TV/9.x'' = Inr False"
  using apple_tv_page_skipped by blast

end
